theory Spec2Isabelle
  imports Complex_Main "HOL-Library.Product_Lexorder"
begin

section \<open>Calcium-imaging pipeline of app.py: arrays, floats and errors\<close>

text \<open>
  Conventions of the embedding.
  \<^item> A numpy array is its shape together with its elements in row-major order.
  \<^item> Pixel values are ideal reals; a float64 result (a mean, a quotient) is a value of
    \<open>npfloat\<close>: a real number, one of the two infinities, or NaN. Rounding and the sign
    of zero are not modelled.
  \<^item> A label image is an integer array together with its dtype; its values are the
    integers the dtype can hold. What numpy does with a Python integer that the dtype
    cannot hold depends on its version, so the version's behaviour is a parameter.
  \<^item> Every exception the Python raises is a value \<open>Inl e\<close>.
\<close>

datatype error = IndexError | KeyError | ValueError | TypeError | OverflowError

datatype npfloat = Fin real | PInf | NInf | NaN

record 'a ndarray =
  shape :: "nat list"
  data :: "'a list"

subsection \<open>float64 arithmetic as numpy performs it (warnings, never exceptions)\<close>

fun fneg :: "npfloat \<Rightarrow> npfloat" where
  "fneg (Fin a) = Fin (- a)"
| "fneg PInf = NInf"
| "fneg NInf = PInf"
| "fneg NaN = NaN"

fun fadd :: "npfloat \<Rightarrow> npfloat \<Rightarrow> npfloat" where
  "fadd NaN _ = NaN"
| "fadd _ NaN = NaN"
| "fadd (Fin a) (Fin b) = Fin (a + b)"
| "fadd (Fin a) PInf = PInf"
| "fadd (Fin a) NInf = NInf"
| "fadd PInf (Fin b) = PInf"
| "fadd NInf (Fin b) = NInf"
| "fadd PInf PInf = PInf"
| "fadd NInf NInf = NInf"
| "fadd PInf NInf = NaN"
| "fadd NInf PInf = NaN"

definition fsub :: "npfloat \<Rightarrow> npfloat \<Rightarrow> npfloat" where
  "fsub a b = fadd a (fneg b)"

fun fdiv :: "npfloat \<Rightarrow> npfloat \<Rightarrow> npfloat" where
  "fdiv NaN _ = NaN"
| "fdiv _ NaN = NaN"
| "fdiv (Fin a) (Fin b) =
     (if b \<noteq> 0 then Fin (a / b)
      else if 0 < a then PInf else if a < 0 then NInf else NaN)"
| "fdiv (Fin a) PInf = Fin 0"
| "fdiv (Fin a) NInf = Fin 0"
| "fdiv PInf (Fin b) = (if 0 \<le> b then PInf else NInf)"
| "fdiv NInf (Fin b) = (if 0 \<le> b then NInf else PInf)"
| "fdiv PInf PInf = NaN"
| "fdiv PInf NInf = NaN"
| "fdiv NInf PInf = NaN"
| "fdiv NInf NInf = NaN"

definition fsum :: "npfloat list \<Rightarrow> npfloat" where
  "fsum xs = foldl fadd (Fin 0) xs"

text \<open>\<open>np.mean\<close>: the sum divided by the count; on an empty selection that is 0/0 = NaN.\<close>

definition np_mean :: "npfloat list \<Rightarrow> npfloat" where
  "np_mean xs = fdiv (fsum xs) (Fin (real (length xs)))"

subsection \<open>Arrays\<close>

text \<open>An array is well formed when it holds as many elements as its shape says.\<close>

definition wf :: "('a, 'z) ndarray_scheme \<Rightarrow> bool" where
  "wf a \<longleftrightarrow> length (data a) = prod_list (shape a)"

text \<open>\<open>chunks n c xs\<close>: the first \<open>n\<close> consecutive blocks of \<open>c\<close> elements of \<open>xs\<close>.\<close>

definition chunks :: "nat \<Rightarrow> nat \<Rightarrow> 'a list \<Rightarrow> 'a list list" where
  "chunks n c xs = map (\<lambda>i. take c (drop (i * c) xs)) [0..<n]"

text \<open>\<open>a[..., k]\<close>: IndexError when the last axis has no index \<open>k\<close>.\<close>

definition select_last :: "nat \<Rightarrow> 'a ndarray \<Rightarrow> error + 'a ndarray" where
  "select_last k a =
     (case shape a of
        [] \<Rightarrow> Inl IndexError
      | _ # _ \<Rightarrow>
          (let c = last (shape a); lead = butlast (shape a)
           in if k < c
              then Inr \<lparr>shape = lead, data = map (\<lambda>i. data a ! (i * c + k)) [0..<prod_list lead]\<rparr>
              else Inl IndexError))"

text \<open>\<open>a[0]\<close>: IndexError on a 0-d array or an empty first axis.\<close>

definition index0 :: "'a ndarray \<Rightarrow> error + 'a ndarray" where
  "index0 a =
     (case shape a of
        [] \<Rightarrow> Inl IndexError
      | n # rest \<Rightarrow>
          if n = 0 then Inl IndexError
          else Inr \<lparr>shape = rest, data = take (prod_list rest) (data a)\<rparr>)"

text \<open>\<open>a[0, 0]\<close>.\<close>

definition index00 :: "'a ndarray \<Rightarrow> error + 'a ndarray" where
  "index00 a = (case index0 a of Inl e \<Rightarrow> Inl e | Inr b \<Rightarrow> index0 b)"

subsection \<open>\<open>process_video\<close> (app.py 1043-1082)\<close>

text \<open>
  What the path names: a TIFF file holds one array, which \<open>tifffile.imread\<close> returns as
  it is; any other container is read through a capture, the sequence of results
  \<open>(ret, frame)\<close> of its successive \<open>read()\<close> calls (after the last of them every read
  fails).
\<close>

datatype 'a source = TiffFile "'a ndarray" | VideoFile "(bool \<times> 'a ndarray) list"

text \<open>The \<open>while True\<close> loop: frames are appended until the first failed read.\<close>

fun read_frames :: "(bool \<times> 'a ndarray) list \<Rightarrow> 'a ndarray list" where
  "read_frames [] = []"
| "read_frames ((ret, frame) # rest) = (if \<not> ret then [] else frame # read_frames rest)"

text \<open>\<open>np.array(frames)\<close> of a list of equally shaped frames; of no frame at all it is the
  empty 1-d array.\<close>

definition np_array :: "'a ndarray list \<Rightarrow> error + 'a ndarray" where
  "np_array fs =
     (case fs of
        [] \<Rightarrow> Inr \<lparr>shape = [0], data = []\<rparr>
      | f # _ \<Rightarrow>
          if list_all (\<lambda>g. shape g = shape f) fs
          then Inr \<lparr>shape = length fs # shape f, data = concat (map data fs)\<rparr>
          else Inl ValueError)"

definition load_frames :: "'a source \<Rightarrow> error + 'a ndarray" where
  "load_frames src =
     (case src of
        TiffFile a \<Rightarrow> Inr a
      | VideoFile cap \<Rightarrow> np_array (read_frames cap))"

text \<open>Lines 1062-1069: bring the array to (N, H, W, C).\<close>

definition ensure_nhwc :: "'a ndarray \<Rightarrow> 'a ndarray" where
  "ensure_nhwc frames =
     (case shape frames of
        [h, w] \<Rightarrow> frames\<lparr>shape := [1, h, w, 1]\<rparr>
      | [a, b, c] \<Rightarrow>
          if c = 1 \<or> c = 3 \<or> c = 4 then frames\<lparr>shape := [1, a, b, c]\<rparr>
          else frames\<lparr>shape := [a, b, c, 1]\<rparr>
      | _ \<Rightarrow> frames)"

text \<open>Lines 1071-1075: \<open>np.repeat(frames, 3, axis=-1)\<close> on one channel,
  \<open>frames[..., :3]\<close> on four, nothing otherwise.\<close>

definition convert_to_rgb :: "'a ndarray \<Rightarrow> error + 'a ndarray" where
  "convert_to_rgb frames =
     (case shape frames of
        [] \<Rightarrow> Inl IndexError
      | _ # _ \<Rightarrow>
          (let c = last (shape frames); lead = butlast (shape frames)
           in if c = 1
              then Inr \<lparr>shape = lead @ [3], data = concat (map (replicate 3) (data frames))\<rparr>
              else if c = 4
              then Inr \<lparr>shape = lead @ [3],
                        data = concat (map (take 3) (chunks (prod_list lead) 4 (data frames)))\<rparr>
              else Inr frames))"

definition process_video :: "'a source \<Rightarrow> error + 'a ndarray" where
  "process_video src =
     (case load_frames src of
        Inl e \<Rightarrow> Inl e
      | Inr frames \<Rightarrow> convert_to_rgb (ensure_nhwc frames))"

subsection \<open>Reducing a mask volume to 2-D\<close>

text \<open>\<open>analyze_video\<close>, lines 226-231 (and again 253-257).\<close>

definition reduce_mask_analyze_video :: "'a ndarray \<Rightarrow> error + 'a ndarray" where
  "reduce_mask_analyze_video masks =
     (if length (shape masks) > 2
      then (if last (shape masks) = 3 then select_last 1 masks
            else if length (shape masks) = 3 then index0 masks else index00 masks)
      else Inr masks)"

text \<open>\<open>process_mask\<close>, lines 1193-1199.\<close>

definition reduce_mask_process_mask :: "'a ndarray \<Rightarrow> error + 'a ndarray" where
  "reduce_mask_process_mask msk =
     (if length (shape msk) > 2
      then (if length (shape msk) = 3 \<and> shape msk ! 2 = 3 then select_last 0 msk
            else if length (shape msk) = 3 then index0 msk else index00 msk)
      else Inr msk)"

subsection \<open>\<open>calculate_df\<close> (app.py 1173-1177)\<close>

text \<open>The slice \<open>xs[:k]\<close> of Python: a negative \<open>k\<close> counts from the end.\<close>

definition py_take :: "int \<Rightarrow> 'a list \<Rightarrow> 'a list" where
  "py_take k xs = (if 0 \<le> k then take (nat k) xs else take (length xs - nat (- k)) xs)"

definition calculate_df :: "npfloat list \<Rightarrow> int \<Rightarrow> npfloat list" where
  "calculate_df intensities baseline_frames =
     (let baseline = np_mean (py_take baseline_frames intensities)
      in map (\<lambda>x. fdiv (fsub x baseline) baseline) intensities)"

text \<open>The call sites pass the series alone, so \<open>baseline_frames\<close> takes its default 10.\<close>

definition calculate_df_default :: "npfloat list \<Rightarrow> npfloat list" where
  "calculate_df_default intensities = calculate_df intensities 10"

subsection \<open>Sequential relabelling of a label image\<close>

text \<open>\<open>np.unique\<close>: the distinct values in ascending order.\<close>

definition np_unique :: "int list \<Rightarrow> int list" where
  "np_unique xs = sort (remdups xs)"

text \<open>\<open>ids[ids != 0]\<close>.\<close>

definition nonzero :: "int list \<Rightarrow> int list" where
  "nonzero ids = filter (\<lambda>v. v \<noteq> 0) ids"

text \<open>\<open>np.arange(1, n + 1)\<close>, also the indices that \<open>enumerate(_, 1)\<close> hands out.\<close>

definition arange1 :: "nat \<Rightarrow> int list" where
  "arange1 n = [1..int n]"

text \<open>The integer dtypes of numpy, their widths and the values they hold.\<close>

datatype dtype = Int8 | UInt8 | Int16 | UInt16 | Int32 | UInt32 | Int64 | UInt64

fun bits :: "dtype \<Rightarrow> nat" where
  "bits Int8 = 8"
| "bits UInt8 = 8"
| "bits Int16 = 16"
| "bits UInt16 = 16"
| "bits Int32 = 32"
| "bits UInt32 = 32"
| "bits Int64 = 64"
| "bits UInt64 = 64"

fun is_signed :: "dtype \<Rightarrow> bool" where
  "is_signed Int8 = True"
| "is_signed Int16 = True"
| "is_signed Int32 = True"
| "is_signed Int64 = True"
| "is_signed UInt8 = False"
| "is_signed UInt16 = False"
| "is_signed UInt32 = False"
| "is_signed UInt64 = False"

definition dtype_min :: "dtype \<Rightarrow> int" where
  "dtype_min d = (if is_signed d then - (2 ^ (bits d - 1)) else 0)"

definition dtype_max :: "dtype \<Rightarrow> int" where
  "dtype_max d = (if is_signed d then 2 ^ (bits d - 1) - 1 else 2 ^ bits d - 1)"

definition fits :: "dtype \<Rightarrow> int \<Rightarrow> bool" where
  "fits d v \<longleftrightarrow> dtype_min d \<le> v \<and> v \<le> dtype_max d"

text \<open>A label image: an integer array and its dtype.\<close>

record label_image = "int ndarray" +
  dtype :: dtype


text \<open>
  Storing a Python integer into an array of dtype \<open>d\<close>. A value the dtype holds is stored
  as it is. One it does not hold is stored modulo \<open>2 ^ bits d\<close> by numpy before 2.0
  (\<open>Wrap\<close>, with a deprecation warning), and makes numpy 2 raise OverflowError (\<open>Raise\<close>).
\<close>

datatype overflow = Wrap | Raise

definition wrap_int :: "dtype \<Rightarrow> int \<Rightarrow> int" where
  "wrap_int d v = (v - dtype_min d) mod 2 ^ bits d + dtype_min d"

definition store_int :: "overflow \<Rightarrow> dtype \<Rightarrow> int \<Rightarrow> error + int" where
  "store_int pol d v =
     (if fits d v then Inr v
      else (case pol of Wrap \<Rightarrow> Inr (wrap_int d v) | Raise \<Rightarrow> Inl OverflowError))"

text \<open>\<open>relabeled[masks == original_id] = new_id\<close> on the elements of both arrays;
  \<open>d\<close> is the dtype of \<open>relabeled\<close>.\<close>

definition assign_where ::
  "overflow \<Rightarrow> dtype \<Rightarrow> int list \<Rightarrow> int \<Rightarrow> int \<Rightarrow> int list \<Rightarrow> error + int list" where
  "assign_where pol d masks original_id new_id relabeled =
     (case store_int pol d new_id of
        Inl e \<Rightarrow> Inl e
      | Inr v \<Rightarrow> Inr (map2 (\<lambda>m r. if m = original_id then v else r) masks relabeled))"

text \<open>The relabelling loop over the pairs (original id, sequential id), in their order.\<close>

fun relabel_loop ::
  "overflow \<Rightarrow> dtype \<Rightarrow> int list \<Rightarrow> (int \<times> int) list \<Rightarrow> int list \<Rightarrow> error + int list" where
  "relabel_loop pol d masks [] relabeled = Inr relabeled"
| "relabel_loop pol d masks ((original_id, new_id) # rest) relabeled =
     (case assign_where pol d masks original_id new_id relabeled of
        Inl e \<Rightarrow> Inl e
      | Inr relabeled' \<Rightarrow> relabel_loop pol d masks rest relabeled')"

text \<open>\<open>np.zeros_like\<close>: same shape, same dtype.\<close>

definition zeros_like :: "label_image \<Rightarrow> label_image" where
  "zeros_like a = a\<lparr>data := replicate (length (data a)) 0\<rparr>"


text \<open>\<open>analyze_calcium_intensity\<close>, lines 807-819: the mask and the cell ids the rest of
  the function works with. \<open>enumerate(unique_cells, 1)\<close> yields (new id, original id);
  the pairs are kept here as (original id, new id).\<close>

definition sequential_relabel ::
  "overflow \<Rightarrow> label_image \<Rightarrow> error + label_image \<times> int list" where
  "sequential_relabel pol masks =
     (let unique_cells = nonzero (np_unique (data masks))
      in if unique_cells \<noteq> arange1 (length unique_cells)
         then (case relabel_loop pol (dtype masks) (data masks)
                      (zip unique_cells (arange1 (length unique_cells)))
                      (data (zeros_like masks)) of
                 Inl e \<Rightarrow> Inl e
               | Inr relabeled_mask \<Rightarrow>
                   Inr (masks\<lparr>data := relabeled_mask\<rparr>, arange1 (length unique_cells)))
         else Inr (masks, unique_cells))"

subsection \<open>Intensity extraction (\<open>analyze_calcium_intensity\<close>, lines 821-843)\<close>

record intensity_record =
  frame :: nat
  cell_id :: int
  intensity :: npfloat

text \<open>Running a loop body over a list, stopping at the first exception.\<close>

fun collect :: "('a \<Rightarrow> error + 'b) \<Rightarrow> 'a list \<Rightarrow> error + 'b list" where
  "collect f [] = Inr []"
| "collect f (x # xs) =
     (case f x of
        Inl e \<Rightarrow> Inl e
      | Inr y \<Rightarrow> (case collect f xs of Inl e \<Rightarrow> Inl e | Inr ys \<Rightarrow> Inr (y # ys)))"

text \<open>Iterating over an array yields its sub-arrays along axis 0 (TypeError on a 0-d
  array).\<close>

definition np_iter :: "'a ndarray \<Rightarrow> error + 'a ndarray list" where
  "np_iter a =
     (case shape a of
        [] \<Rightarrow> Inl TypeError
      | n # rest \<Rightarrow>
          Inr (map (\<lambda>ch. \<lparr>shape = rest, data = ch\<rparr>) (chunks n (prod_list rest) (data a))))"

text \<open>Lines 827-828.\<close>

definition to_gray :: "'a ndarray \<Rightarrow> error + 'a ndarray" where
  "to_gray fr = (if length (shape fr) = 3 then select_last 1 fr else Inr fr)"

text \<open>\<open>fr[cell_mask]\<close> with a boolean array: its shape must equal the leading axes of
  \<open>fr\<close> (IndexError otherwise); the selected elements (sub-arrays, when \<open>fr\<close> has more
  axes) come in row-major order.\<close>

definition bool_index :: "'a ndarray \<Rightarrow> bool ndarray \<Rightarrow> error + 'a list" where
  "bool_index fr cell_mask =
     (let k = length (shape cell_mask)
      in if take k (shape fr) = shape cell_mask
         then Inr (concat (map (\<lambda>(b, ch). if b then ch else [])
                    (zip (data cell_mask)
                         (chunks (prod_list (shape cell_mask)) (prod_list (drop k (shape fr)))
                            (data fr)))))
         else Inl IndexError)"

text \<open>Lines 832-843, the body of the loop over the cells.\<close>

definition cell_record :: "nat \<Rightarrow> real ndarray \<Rightarrow> label_image \<Rightarrow> int \<Rightarrow> error + intensity_record" where
  "cell_record frame_idx fr masks cell =
     (let cell_mask = \<lparr>shape = shape masks, data = map (\<lambda>v. v = cell) (data masks)\<rparr>
      in case bool_index fr cell_mask of
           Inl e \<Rightarrow> Inl e
         | Inr sel \<Rightarrow>
             Inr \<lparr>frame = frame_idx, cell_id = cell, intensity = np_mean (map Fin sel)\<rparr>)"

text \<open>Lines 826-843, the body of the loop over the frames.\<close>

definition frame_records ::
  "label_image \<Rightarrow> int list \<Rightarrow> nat \<times> real ndarray \<Rightarrow> error + intensity_record list" where
  "frame_records masks unique_cells p =
     (case to_gray (snd p) of
        Inl e \<Rightarrow> Inl e
      | Inr g \<Rightarrow> collect (cell_record (fst p) g masks) unique_cells)"

definition measure_cells ::
  "real ndarray \<Rightarrow> label_image \<Rightarrow> int list \<Rightarrow> error + intensity_record list" where
  "measure_cells frames masks unique_cells =
     (case np_iter frames of
        Inl e \<Rightarrow> Inl e
      | Inr fs \<Rightarrow>
          (case collect (frame_records masks unique_cells) (enumerate 0 fs) of
             Inl e \<Rightarrow> Inl e
           | Inr rss \<Rightarrow> Inr (concat rss)))"

text \<open>Lines 806-843 as a whole.\<close>

definition extract_records ::
  "overflow \<Rightarrow> real ndarray \<Rightarrow> label_image \<Rightarrow> error + intensity_record list" where
  "extract_records pol frames masks =
     (case sequential_relabel pol masks of
        Inl e \<Rightarrow> Inl e
      | Inr (masks', unique_cells) \<Rightarrow> measure_cells frames masks' unique_cells)"

subsection \<open>Baselines and normalized intensity (lines 845-865)\<close>

record row = intensity_record +
  normalized_intensity :: npfloat

text \<open>The order in which \<open>nsmallest\<close> ranks float64 values: NaN comes last.\<close>

fun fkey :: "npfloat \<Rightarrow> nat \<times> real" where
  "fkey NInf = (0, 0)"
| "fkey (Fin x) = (1, x)"
| "fkey PInf = (2, 0)"
| "fkey NaN = (3, 0)"

definition nsmallest :: "nat \<Rightarrow> npfloat list \<Rightarrow> npfloat list" where
  "nsmallest n xs = take n (sort_key fkey xs)"

text \<open>\<open>Series.mean()\<close> skips NaN.\<close>

definition pd_mean :: "npfloat list \<Rightarrow> npfloat" where
  "pd_mean xs = np_mean (filter (\<lambda>x. x \<noteq> NaN) xs)"

definition baseline_of :: "intensity_record list \<Rightarrow> int \<Rightarrow> npfloat" where
  "baseline_of df cell =
     (let first_frame_data = filter (\<lambda>r. cell_id r = cell \<and> frame r = 0) df;
          cell_rows = filter (\<lambda>r. cell_id r = cell) df
      in if first_frame_data \<noteq> [] then intensity (hd first_frame_data)
         else pd_mean (nsmallest (min 10 (length cell_rows)) (map intensity cell_rows)))"

text \<open>The dictionary \<open>baselines\<close>, one entry per cell of \<open>unique_cells\<close>.\<close>

definition baselines :: "intensity_record list \<Rightarrow> int list \<Rightarrow> (int \<times> npfloat) list" where
  "baselines df unique_cells = map (\<lambda>c. (c, baseline_of df c)) unique_cells"

definition normalize_row :: "(int \<times> npfloat) list \<Rightarrow> intensity_record \<Rightarrow> error + row" where
  "normalize_row bl r =
     (case map_of bl (cell_id r) of
        None \<Rightarrow> Inl KeyError
      | Some b \<Rightarrow>
          Inr \<lparr>frame = frame r, cell_id = cell_id r, intensity = intensity r,
               normalized_intensity = fdiv (intensity r) b\<rparr>)"

text \<open>
  Lines 845-865. A frame built from no record has no column: with a cell to look up,
  \<open>df['cell_id']\<close> raises KeyError; with no cell either, \<open>apply\<close> returns a frame without
  columns, which pandas 2 refuses to assign to a column (ValueError). The caller
  \<open>analyze_video\<close> stops before on a mask without cells.
\<close>

definition normalize_table :: "intensity_record list \<Rightarrow> int list \<Rightarrow> error + row list" where
  "normalize_table results unique_cells =
     (if results = [] then (if unique_cells = [] then Inl ValueError else Inl KeyError)
      else collect (normalize_row (baselines results unique_cells)) results)"

definition analyze_calcium_intensity ::
  "overflow \<Rightarrow> real ndarray \<Rightarrow> label_image \<Rightarrow> error + row list" where
  "analyze_calcium_intensity pol frames masks =
     (case sequential_relabel pol masks of
        Inl e \<Rightarrow> Inl e
      | Inr (masks', unique_cells) \<Rightarrow>
          (case measure_cells frames masks' unique_cells of
             Inl e \<Rightarrow> Inl e
           | Inr results \<Rightarrow> normalize_table results unique_cells))"


text \<open>The values that frame \<open>f\<close> has, in channel \<open>g\<close> of \<open>C\<close>, at the pixels labelled
  \<open>c\<close>, in row-major order; \<open>n\<close> is the number of pixels of a frame.\<close>

definition cell_pixels :: "real ndarray \<Rightarrow> label_image \<Rightarrow> nat \<Rightarrow> nat \<Rightarrow> nat \<Rightarrow> nat \<Rightarrow> int \<Rightarrow> real list" where
  "cell_pixels frames masks n C g f c =
     map fst (filter (\<lambda>(v, l). l = c)
       (zip (map (\<lambda>p. data frames ! ((f * n + p) * C + g)) [0..<n]) (data masks)))"

subsection \<open>\<open>analyze_calcium_intensity\<close> on a store of array objects\<close>

text \<open>
  Python names are bound to array objects, and an item assignment writes into the object
  its target is bound to. The store is the list of the objects alive; a reference is an
  index into it; creating an array appends to it. Only the arrays that some statement of
  the function assigns into need an address: the values that are only read (the sorted
  ids, the boolean cell masks, the selections, the result table) stay values.
\<close>

datatype obj = IntArr label_image | FloatArr "real ndarray"

type_synonym store = "obj list"

definition alloc :: "store \<Rightarrow> obj \<Rightarrow> nat \<times> store" where
  "alloc s x = (length s, s @ [x])"

text \<open>Line 816, \<open>relabeled_mask[masks == original_id] = new_id\<close>: reads the object
  bound to \<open>masks\<close>, writes the object bound to \<open>relabeled_mask\<close>; the exception, if
  one is raised, comes with the store as it is then.\<close>

definition assign_where_st ::
  "overflow \<Rightarrow> nat \<Rightarrow> nat \<Rightarrow> int \<Rightarrow> int \<Rightarrow> store \<Rightarrow> error option \<times> store" where
  "assign_where_st pol masks relabeled_mask original_id new_id s =
     (case (s ! masks, s ! relabeled_mask) of
        (IntArr m, IntArr r) \<Rightarrow>
          (case assign_where pol (dtype r) (data m) original_id new_id (data r) of
             Inl e \<Rightarrow> (Some e, s)
           | Inr vs \<Rightarrow> (None, s[relabeled_mask := IntArr (r\<lparr>data := vs\<rparr>)]))
      | _ \<Rightarrow> (Some TypeError, s))"

fun relabel_loop_st ::
  "overflow \<Rightarrow> nat \<Rightarrow> nat \<Rightarrow> (int \<times> int) list \<Rightarrow> store \<Rightarrow> error option \<times> store" where
  "relabel_loop_st pol masks relabeled_mask [] s = (None, s)"
| "relabel_loop_st pol masks relabeled_mask ((original_id, new_id) # rest) s =
     (case assign_where_st pol masks relabeled_mask original_id new_id s of
        (Some e, s') \<Rightarrow> (Some e, s')
      | (None, s') \<Rightarrow> relabel_loop_st pol masks relabeled_mask rest s')"

text \<open>Lines 821-865, which only read their arrays.\<close>

definition measure_and_normalize :: "real ndarray \<Rightarrow> label_image \<Rightarrow> int list \<Rightarrow> error + row list" where
  "measure_and_normalize frames masks unique_cells =
     (case measure_cells frames masks unique_cells of
        Inl e \<Rightarrow> Inl e
      | Inr results \<Rightarrow> normalize_table results unique_cells)"

text \<open>The whole function, called with references to the caller's two arrays; it returns
  its result and the store it leaves. Line 817, \<open>masks = relabeled_mask\<close>, rebinds the
  local name: from there on \<open>masks'\<close> is the reference in use. A reference that does
  not hold an array of the expected kind (floats for \<open>frames\<close>, integers for \<open>masks\<close>)
  is answered with TypeError and an unchanged store.\<close>

definition analyze_calcium_intensity_st ::
  "overflow \<Rightarrow> store \<Rightarrow> nat \<Rightarrow> nat \<Rightarrow> (error + row list) \<times> store" where
  "analyze_calcium_intensity_st pol s frames masks =
     (case (s ! frames, s ! masks) of
        (FloatArr f, IntArr m) \<Rightarrow>
          (let unique_cells = nonzero (np_unique (data m))
           in if unique_cells \<noteq> arange1 (length unique_cells)
              then (case alloc s (IntArr (zeros_like m)) of (relabeled_mask, s1) \<Rightarrow>
                     (case relabel_loop_st pol masks relabeled_mask
                             (zip unique_cells (arange1 (length unique_cells))) s1 of
                        (Some e, s2) \<Rightarrow> (Inl e, s2)
                      | (None, s2) \<Rightarrow>
                          (let masks' = relabeled_mask
                           in case (s2 ! frames, s2 ! masks') of
                                (FloatArr f2, IntArr m2) \<Rightarrow>
                                  (measure_and_normalize f2 m2 (arange1 (length unique_cells)),
                                   s2)
                              | _ \<Rightarrow> (Inl TypeError, s2))))
              else (measure_and_normalize f m unique_cells, s))
      | _ \<Rightarrow> (Inl TypeError, s))"

section \<open>Facts about the float model\<close>

lemma foldl_fadd_Fin: "foldl fadd (Fin a) (map Fin vs) = Fin (a + sum_list vs)"
  by (induction vs arbitrary: a) (simp_all add: add.assoc)

lemma fsum_Fin: "fsum (map Fin vs) = Fin (sum_list vs)"
  by (simp add: fsum_def foldl_fadd_Fin)

lemma np_mean_Fin:
  "np_mean (map Fin vs) = (if vs = [] then NaN else Fin (sum_list vs / real (length vs)))"
  by (simp add: np_mean_def fsum_Fin)

section \<open>The \<open>\<Delta>F/F\<close> signal\<close>

text \<open>
  Claim C5. For a per-cell intensity series taken in frame order and a non-negative
  \<open>baseline_frames\<close>, \<open>calculate_df\<close> returns a series of the same length whose
  \<open>i\<close>-th entry is \<open>(intensity[i] - b) / b\<close> in float64 arithmetic, where \<open>b\<close> is the mean
  of the first \<open>min(baseline_frames, length)\<close> samples; for finite samples and a nonzero
  \<open>b\<close> that is the real quotient. The call sites use the default \<open>baseline_frames = 10\<close>.
  The baseline is a function of the given series only: \<open>calculate_df\<close> has no other input.
\<close>

theorem calculate_df_spec:
  assumes "0 \<le> k" and "i < length xs"
  shows "length (calculate_df xs k) = length xs
    \<and> calculate_df xs k ! i =
           fdiv (fsub (xs ! i) (np_mean (take (min (nat k) (length xs)) xs)))
                (np_mean (take (min (nat k) (length xs)) xs))
    \<and> (\<forall>vs b. xs = map Fin vs
           \<and> b = sum_list (take (min (nat k) (length vs)) vs) / real (min (nat k) (length vs))
           \<and> b \<noteq> 0 \<longrightarrow> calculate_df xs k ! i = Fin ((vs ! i - b) / b))
    \<and> calculate_df_default xs = calculate_df xs 10"
proof -
  have len: "length (calculate_df xs k) = length xs"
    by (simp add: calculate_df_def Let_def)
  have tk: "py_take k xs = take (min (nat k) (length xs)) xs"
    using assms(1) by (simp add: py_take_def min_def)
  have ith: "calculate_df xs k ! i =
           fdiv (fsub (xs ! i) (np_mean (take (min (nat k) (length xs)) xs)))
                (np_mean (take (min (nat k) (length xs)) xs))"
    using assms(2) by (simp add: calculate_df_def Let_def tk)
  have dflt: "calculate_df_default xs = calculate_df xs 10"
    by (simp add: calculate_df_default_def)
  have fin: "calculate_df xs k ! i = Fin ((vs ! i - b) / b)"
    if xs: "xs = map Fin vs"
      and b: "b = sum_list (take (min (nat k) (length vs)) vs) / real (min (nat k) (length vs))"
      and nz: "b \<noteq> 0" for vs b
  proof -
    let ?n = "min (nat k) (length vs)"
    have ne: "take ?n vs \<noteq> []"
    proof
      assume e: "take ?n vs = []"
      have "b = 0" unfolding b e by simp
      with nz show False by simp
    qed
    have l: "length (take ?n vs) = ?n" by simp
    have "np_mean (take (min (nat k) (length xs)) xs) = np_mean (map Fin (take ?n vs))"
      by (simp add: xs take_map)
    also have "\<dots> = Fin b"
      using ne b by (simp only: np_mean_Fin l if_False)
    finally have m: "np_mean (take (min (nat k) (length xs)) xs) = Fin b" .
    have "xs ! i = Fin (vs ! i)" using assms(2) xs by simp
    then show ?thesis
      using nz by (simp add: ith m fsub_def)
  qed
  from len ith fin dflt show ?thesis by blast
qed

theorem calculate_df_spec_witness:
  "calculate_df [Fin 2, Fin 4, Fin 6] 2 ! 2 = Fin 1
   \<and> length (calculate_df [Fin 2, Fin 4, Fin 6] 2) = 3"
proof -
  have k: "(0::int) \<le> 2" by simp
  have i: "(2::nat) < length [Fin 2, Fin 4, Fin 6]" by simp
  note h = calculate_df_spec [OF k i]
  note fin = h [THEN conjunct2, THEN conjunct2, THEN conjunct1, rule_format,
      of "[2, 4, 6]" 3]
  have "calculate_df [Fin 2, Fin 4, Fin 6] 2 ! 2 = Fin (([2, 4, 6::real] ! 2 - 3) / 3)"
    by (rule fin) simp
  moreover have "length (calculate_df [Fin 2, Fin 4, Fin 6] 2) = length [Fin 2, Fin 4, Fin 6]"
    by (rule h [THEN conjunct1])
  ultimately show ?thesis by simp
qed

section \<open>Facts about flat arrays\<close>

lemma length_concat_uniform:
  "list_all (\<lambda>ys. length ys = k) yss \<Longrightarrow> length (concat yss) = length yss * k"
  by (induction yss) simp_all

lemma nth_concat_uniform:
  "list_all (\<lambda>ys. length ys = k) yss \<Longrightarrow> i < length yss \<Longrightarrow> c < k
   \<Longrightarrow> concat yss ! (i * k + c) = yss ! i ! c"
proof (induction yss arbitrary: i)
  case Nil
  then show ?case by simp
next
  case (Cons ys yss)
  show ?case
  proof (cases i)
    case 0
    with Cons.prems show ?thesis by (simp add: nth_append)
  next
    case (Suc j)
    with Cons.prems have "concat yss ! (j * k + c) = yss ! j ! c"
      by (intro Cons.IH) simp_all
    with Suc Cons.prems show ?thesis by (simp add: nth_append add.assoc)
  qed
qed

lemma length_chunks [simp]: "length (chunks n c xs) = n"
  by (simp add: chunks_def)

lemma nth_chunks: "i < n \<Longrightarrow> chunks n c xs ! i = take c (drop (i * c) xs)"
  by (simp add: chunks_def)

lemma chunk_full:
  assumes "length xs = n * c" and "i < n"
  shows "length (take c (drop (i * c) xs)) = c"
proof -
  have "Suc i \<le> n" using assms(2) by simp
  then have "Suc i * c \<le> n * c" by (rule mult_le_mono1)
  then have "c \<le> n * c - i * c" by simp
  then show ?thesis using assms(1) by simp
qed

lemma list_all_chunks:
  "length xs = n * c \<Longrightarrow> list_all (\<lambda>ys. length ys = c) (chunks n c xs)"
  unfolding list_all_iff chunks_def
  by (auto simp del: length_take length_drop intro: chunk_full)

lemma repeat3_nth:
  assumes "p < length xs" and "c < 3"
  shows "concat (map (replicate 3) xs) ! (p * 3 + c) = xs ! p"
proof -
  have "list_all (\<lambda>ys. length ys = 3) (map (replicate 3) xs)"
    by (simp add: list_all_iff)
  from nth_concat_uniform [OF this, of p c] assms show ?thesis by simp
qed

lemma first3_nth:
  assumes "length xs = n * 4" and "p < n" and "c < 3"
  shows "concat (map (take 3) (chunks n 4 xs)) ! (p * 3 + c) = xs ! (p * 4 + c)"
proof -
  have all: "list_all (\<lambda>ys. length ys = 3) (map (take 3) (chunks n 4 xs))"
    using list_all_chunks [OF assms(1)] by (auto simp: list_all_iff)
  have "p * 4 + c < length xs" using assms by simp
  have "concat (map (take 3) (chunks n 4 xs)) ! (p * 3 + c)
        = map (take 3) (chunks n 4 xs) ! p ! c"
    using nth_concat_uniform [OF all, of p c] assms by simp
  also have "\<dots> = take 4 (drop (p * 4) xs) ! c"
    using assms by (simp add: nth_chunks)
  also have "\<dots> = xs ! (p * 4 + c)"
    using assms by simp
  finally show ?thesis .
qed

lemma first3_length:
  assumes "length xs = n * 4"
  shows "length (concat (map (take 3) (chunks n 4 xs))) = n * 3"
proof -
  have "list_all (\<lambda>ys. length ys = 3) (map (take 3) (chunks n 4 xs))"
    using list_all_chunks [OF assms] by (auto simp: list_all_iff)
  from length_concat_uniform [OF this] show ?thesis by simp
qed

lemma repeat3_length: "length (concat (map (replicate 3) xs)) = length xs * 3"
proof -
  have "list_all (\<lambda>ys. length ys = 3) (map (replicate 3) xs)"
    by (simp add: list_all_iff)
  from length_concat_uniform [OF this] show ?thesis by simp
qed

lemma convert_to_rgb_nhwc:
  assumes sh: "shape b = [N, H, W, C]" and len: "length (data b) = N * H * W * C"
    and C: "C = 1 \<or> C = 3 \<or> C = 4"
  shows "\<exists>out. convert_to_rgb b = Inr out \<and> shape out = [N, H, W, 3] \<and> wf out
     \<and> (\<forall>p c. p < N * H * W \<and> c < 3 \<longrightarrow>
            data out ! (p * 3 + c) = data b ! (p * C + (if C = 1 then 0 else c)))
     \<and> (C = 3 \<longrightarrow> data out = data b)"
proof -
  consider "C = 1" | "C = 3" | "C = 4" using C by blast
  then show ?thesis
  proof cases
    case 1
    then show ?thesis using sh len
      by (simp add: convert_to_rgb_def wf_def repeat3_length repeat3_nth)
  next
    case 2
    then have "convert_to_rgb b = Inr b" using sh by (simp add: convert_to_rgb_def)
    then show ?thesis using sh len 2 by (simp add: wf_def)
  next
    case 3
    then show ?thesis using sh len
      by (simp add: convert_to_rgb_def wf_def first3_length first3_nth)
  qed
qed

section \<open>Frame normalization\<close>

text \<open>
  Claim C6, as amended. For every well-formed loaded array of a supported shape (2-D;
  3-D with last axis 1, 3 or 4; 3-D with another last axis; 4-D with last axis 1, 3 or 4),
  \<open>process_video\<close> returns a well-formed array of shape (N, H, W, 3). With \<open>C\<close> the
  channel count of the input seen as (N, H, W, C): output channel \<open>c\<close> of pixel \<open>p\<close> is
  the single input channel when \<open>C = 1\<close> and input channel \<open>c\<close> otherwise (the first three
  of four; all three of three, where the data are returned as they are). A 4-D array
  whose last axis is neither 1 nor 4 is returned as it is, whatever its channel count.
\<close>

theorem process_video_rgb:
  assumes ld: "load_frames src = Inr a" and wf: "wf a"
  shows "((shape a = [H, W] \<and> N = 1 \<and> C = 1)
       \<or> (shape a = [H, W, C] \<and> N = 1 \<and> (C = 1 \<or> C = 3 \<or> C = 4))
       \<or> (shape a = [N, H, W] \<and> C = 1 \<and> \<not> (W = 1 \<or> W = 3 \<or> W = 4))
       \<or> (shape a = [N, H, W, C] \<and> (C = 1 \<or> C = 3 \<or> C = 4))
       \<longrightarrow> (\<exists>out. process_video src = Inr out \<and> shape out = [N, H, W, 3] \<and> wf out
             \<and> (\<forall>p c. p < N * H * W \<and> c < 3 \<longrightarrow>
                    data out ! (p * 3 + c) = data a ! (p * C + (if C = 1 then 0 else c)))
             \<and> (C = 3 \<longrightarrow> data out = data a)))
     \<and> (\<forall>n h w c. shape a = [n, h, w, c] \<and> c \<noteq> 1 \<and> c \<noteq> 4 \<longrightarrow> process_video src = Inr a)"
proof (intro conjI impI allI)
  assume sup: "(shape a = [H, W] \<and> N = 1 \<and> C = 1)
       \<or> (shape a = [H, W, C] \<and> N = 1 \<and> (C = 1 \<or> C = 3 \<or> C = 4))
       \<or> (shape a = [N, H, W] \<and> C = 1 \<and> \<not> (W = 1 \<or> W = 3 \<or> W = 4))
       \<or> (shape a = [N, H, W, C] \<and> (C = 1 \<or> C = 3 \<or> C = 4))"
  have sh: "shape (ensure_nhwc a) = [N, H, W, C]" and dt: "data (ensure_nhwc a) = data a"
    using sup by (auto simp: ensure_nhwc_def)
  have C: "C = 1 \<or> C = 3 \<or> C = 4" using sup by auto
  have "prod_list (shape a) = N * H * W * C" using sup by auto
  then have len: "length (data (ensure_nhwc a)) = N * H * W * C"
    using wf dt by (simp add: wf_def)
  from convert_to_rgb_nhwc [OF sh len C]
  show "\<exists>out. process_video src = Inr out \<and> shape out = [N, H, W, 3] \<and> wf out
             \<and> (\<forall>p c. p < N * H * W \<and> c < 3 \<longrightarrow>
                    data out ! (p * 3 + c) = data a ! (p * C + (if C = 1 then 0 else c)))
             \<and> (C = 3 \<longrightarrow> data out = data a)"
    using ld by (simp add: process_video_def dt)
next
  fix n h w c
  assume "shape a = [n, h, w, c] \<and> c \<noteq> 1 \<and> c \<noteq> 4"
  then show "process_video src = Inr a"
    using ld by (simp add: process_video_def ensure_nhwc_def convert_to_rgb_def)
qed

theorem process_video_rgb_witness:
  "(\<exists>out. process_video (TiffFile \<lparr>shape = [1, 2, 4], data = [1, 2, 3, 4, 5, 6, 7, 8 :: real]\<rparr>)
            = Inr out
     \<and> shape out = [1, 1, 2, 3] \<and> wf out \<and> data out ! 4 = 6)
   \<and> process_video (TiffFile \<lparr>shape = [1, 1, 1, 5], data = [1, 2, 3, 4, 5 :: real]\<rparr>)
       = Inr \<lparr>shape = [1, 1, 1, 5], data = [1, 2, 3, 4, 5]\<rparr>"
proof -
  let ?a = "\<lparr>shape = [1, 2, 4], data = [1, 2, 3, 4, 5, 6, 7, 8 :: real]\<rparr>"
  have ld: "load_frames (TiffFile ?a) = Inr ?a" by (simp add: load_frames_def)
  have wf: "wf ?a" by (simp add: wf_def)
  have sup: "(shape ?a = [1, 2] \<and> (1::nat) = 1 \<and> (4::nat) = 1)
       \<or> (shape ?a = [1, 2, 4] \<and> (1::nat) = 1 \<and> ((4::nat) = 1 \<or> (4::nat) = 3 \<or> (4::nat) = 4))
       \<or> (shape ?a = [1, 1, 2] \<and> (4::nat) = 1 \<and> \<not> ((2::nat) = 1 \<or> (2::nat) = 3 \<or> (2::nat) = 4))
       \<or> (shape ?a = [1, 1, 2, 4] \<and> ((4::nat) = 1 \<or> (4::nat) = 3 \<or> (4::nat) = 4))"
    by simp
  from process_video_rgb [OF ld wf, of 1 2 1 4, THEN conjunct1, rule_format, OF sup]
  obtain out where
    o: "process_video (TiffFile ?a) = Inr out" "shape out = [1, 1, 2, 3]" "wf out"
      and px: "\<forall>p c. p < 1 * 1 * 2 \<and> c < 3 \<longrightarrow>
                 data out ! (p * 3 + c) = data ?a ! (p * 4 + (if (4::nat) = 1 then 0 else c))"
    by blast
  from px [rule_format, of 1 1] have "data out ! 4 = 6" by simp
  with o have 1: "\<exists>out. process_video (TiffFile ?a) = Inr out
     \<and> shape out = [1, 1, 2, 3] \<and> wf out \<and> data out ! 4 = 6" by blast
  let ?b = "\<lparr>shape = [1, 1, 1, 5], data = [1, 2, 3, 4, 5 :: real]\<rparr>"
  have ldb: "load_frames (TiffFile ?b) = Inr ?b" by (simp add: load_frames_def)
  have wfb: "wf ?b" by (simp add: wf_def)
  have "shape ?b = [1, 1, 1, 5] \<and> (5::nat) \<noteq> 1 \<and> (5::nat) \<noteq> 4" by simp
  from process_video_rgb [OF ldb wfb, THEN conjunct2, rule_format, OF this]
  have "process_video (TiffFile ?b) = Inr ?b" .
  with 1 show ?thesis by blast
qed

text \<open>A 4-D array with two channels is returned as it is, with its two channels.\<close>

theorem process_video_two_channels_counterexample:
  "wf \<lparr>shape = [1, 1, 1, 2], data = [5, 7 :: real]\<rparr>
   \<and> process_video (TiffFile \<lparr>shape = [1, 1, 1, 2], data = [5, 7 :: real]\<rparr>)
       = Inr \<lparr>shape = [1, 1, 1, 2], data = [5, 7]\<rparr>"
  by (simp add: wf_def process_video_def load_frames_def ensure_nhwc_def convert_to_rgb_def)

text \<open>
  Claim C9, as amended. When no frame is read from a video container (its first read
  fails), \<open>process_video\<close> raises nothing: it returns the empty one-dimensional array of
  shape (0,).
\<close>

theorem process_video_no_frames:
  "read_frames cap = [] \<Longrightarrow> process_video (VideoFile cap) = Inr \<lparr>shape = [0], data = []\<rparr>"
  by (simp add: process_video_def load_frames_def np_array_def ensure_nhwc_def
      convert_to_rgb_def)

theorem process_video_no_frames_witness:
  "read_frames [(False, \<lparr>shape = [0], data = ([] :: real list)\<rparr>)] = []
   \<and> process_video (VideoFile [(False, \<lparr>shape = [0], data = ([] :: real list)\<rparr>)])
       = Inr \<lparr>shape = [0], data = []\<rparr>"
proof -
  have h: "read_frames [(False, \<lparr>shape = [0], data = ([] :: real list)\<rparr>)] = []" by simp
  from process_video_no_frames [OF h] h show ?thesis by blast
qed

theorem process_video_empty_capture_counterexample:
  "process_video (VideoFile ([] :: (bool \<times> real ndarray) list)) = Inr \<lparr>shape = [0], data = []\<rparr>"
  by (simp add: process_video_def load_frames_def np_array_def ensure_nhwc_def
      convert_to_rgb_def)

section \<open>Mask reduction\<close>

text \<open>
  Claim C3. On a mask volume of shape (H, W, 3) the reduction in \<open>analyze_video\<close> takes
  the channel at index 1, while the reduction in \<open>process_mask\<close> takes the channel at
  index 0: on the one-pixel mask with channels (5, 7, 9) the former yields 7, the latter 5.
\<close>

theorem reduce_mask_channels_differ:
  "reduce_mask_analyze_video \<lparr>shape = [1, 1, 3], data = [5, 7, 9 :: int]\<rparr>
     = Inr \<lparr>shape = [1, 1], data = [7]\<rparr>
   \<and> reduce_mask_process_mask \<lparr>shape = [1, 1, 3], data = [5, 7, 9 :: int]\<rparr>
     = Inr \<lparr>shape = [1, 1], data = [5]\<rparr>"
  by (simp add: reduce_mask_process_mask_def reduce_mask_analyze_video_def select_last_def)

section \<open>Canonical labels\<close>












lemma length_arange1 [simp]: "length (arange1 n) = n"
  by (simp add: arange1_def)





lemma ids_facts:
  "distinct (nonzero (np_unique xs))" "sorted (nonzero (np_unique xs))"
  "set (nonzero (np_unique xs)) = set xs - {0}"
  by (auto simp: nonzero_def np_unique_def sorted_filter [where f = "\<lambda>x. x", simplified])

lemma ids_canonical:
  "set xs - {0} = {1..N} \<Longrightarrow> nonzero (np_unique xs) = [1..N]"
  by (rule sorted_distinct_set_unique) (simp_all add: ids_facts)

lemma arange1_nat: "arange1 (nat N) = [1..N]"
  by (cases "0 \<le> N") (simp_all add: arange1_def)








lemma sequential_relabel_canonical:
  assumes "set (data m) - {0} = {1..N}"
  shows "sequential_relabel pol m = Inr (m, [1..N])"
  by (simp add: sequential_relabel_def Let_def ids_canonical [OF assms] arange1_nat)





lemma upto_1_2: "[1..2::int] = [1, 2]"
  by (simp add: upto_rec1)




section \<open>Intensity extraction\<close>

lemma take_drop_nth:
  "a + n \<le> length xs \<Longrightarrow> take n (drop a xs) = map (\<lambda>p. xs ! (a + p)) [0..<n]"
  by (rule nth_equalityI) simp_all

lemma np_iter_frames:
  "shape a = n # rest \<Longrightarrow>
   np_iter a = Inr (map (\<lambda>f. \<lparr>shape = rest,
                  data = take (prod_list rest) (drop (f * prod_list rest) (data a))\<rparr>) [0..<n])"
  by (simp add: np_iter_def chunks_def)

lemma collect_Inr:
  "(\<And>x. x \<in> set xs \<Longrightarrow> f x = Inr (g x)) \<Longrightarrow> collect f xs = Inr (map g xs)"
  by (induction xs) simp_all

lemma chunks_one: "length xs = n \<Longrightarrow> chunks n 1 xs = map (\<lambda>x. [x]) xs"
  by (rule nth_equalityI) (simp_all add: chunks_def take_Suc_conv_app_nth [where i = 0, simplified] take_drop_nth)


lemma select_by_mask:
  "concat (map (\<lambda>(b, ch). if b then ch else []) (zip (map P ms) (map (\<lambda>x. [x]) xs)))
   = map fst (filter (\<lambda>(v, l). P l) (zip xs ms))"
proof (induction xs arbitrary: ms)
  case Nil
  then show ?case by simp
next
  case (Cons x xs)
  then show ?case by (cases ms) simp_all
qed

lemma cell_record_2d:
  assumes "shape fr = [H, W]" and "length (data fr) = H * W"
    and "shape masks = [H, W]" and "length (data masks) = H * W"
  shows "cell_record f fr masks c
         = Inr \<lparr>frame = f, cell_id = c,
                intensity = np_mean (map Fin
                  (map fst (filter (\<lambda>(v, l). l = c) (zip (data fr) (data masks)))))\<rparr>"
proof -
  have ch: "chunks (H * W) (Suc 0) (data fr) = map (\<lambda>x. [x]) (data fr)"
    using chunks_one [OF assms(2)] by simp
  show ?thesis
    using assms(1,3) by (simp add: cell_record_def bool_index_def ch select_by_mask)
qed

lemma member_nonempty:
  assumes "c \<in> set ms" and "length xs = length ms"
  shows "map fst (filter (\<lambda>(v, l). l = c) (zip xs ms)) \<noteq> []"
proof -
  from assms(1) obtain i where i: "i < length ms" "ms ! i = c"
    by (auto simp: in_set_conv_nth)
  then have "(xs ! i, c) \<in> set (zip xs ms)"
    using assms(2) by (auto simp: set_zip)
  then have "(xs ! i, c) \<in> set (filter (\<lambda>(v, l). l = c) (zip xs ms))" by simp
  then show ?thesis by (auto simp: filter_empty_conv)
qed

lemma to_gray_channels:
  assumes C: "2 \<le> C" and len: "(f + 1) * (H * W * C) \<le> length xs"
  shows "to_gray \<lparr>shape = [H, W, C], data = take (H * W * C) (drop (f * (H * W * C)) xs)\<rparr>
         = Inr \<lparr>shape = [H, W], data = map (\<lambda>p. xs ! ((f * (H * W) + p) * C + 1)) [0..<H * W]\<rparr>"
proof -
  have "take (H * W * C) (drop (f * (H * W * C)) xs) ! (p * C + 1)
        = xs ! ((f * (H * W) + p) * C + 1)" if p: "p < H * W" for p
  proof -
    have "Suc p \<le> H * W" using p by simp
    then have "Suc p * C \<le> H * W * C" by (rule mult_le_mono1)
    then have lt: "p * C + 1 < H * W * C" using C by simp
    have "f * (H * W * C) + (p * C + 1) = (f * (H * W) + p) * C + 1"
      by (simp add: algebra_simps)
    moreover have "f * (H * W * C) + (p * C + 1) < length xs"
      using lt len by simp
    ultimately show ?thesis using lt by simp
  qed
  then show ?thesis
    using C by (simp add: to_gray_def select_last_def)
qed

lemma to_gray_single:
  assumes len: "(f + 1) * (H * W) \<le> length xs"
  shows "to_gray \<lparr>shape = [H, W], data = take (H * W) (drop (f * (H * W)) xs)\<rparr>
         = Inr \<lparr>shape = [H, W], data = map (\<lambda>p. xs ! ((f * (H * W) + p) * 1 + 0)) [0..<H * W]\<rparr>"
proof -
  have "f * (H * W) + H * W \<le> length xs" using len by simp
  from take_drop_nth [OF this] show ?thesis by (simp add: to_gray_def)
qed


lemma gray_frame:
  assumes geo: "(rest = [H, W, C] \<and> 2 \<le> C \<and> g = 1) \<or> (rest = [H, W] \<and> C = 1 \<and> g = 0)"
    and len: "length xs = N * prod_list rest" and f: "f < N"
  shows "to_gray \<lparr>shape = rest, data = take (prod_list rest) (drop (f * prod_list rest) xs)\<rparr>
         = Inr \<lparr>shape = [H, W], data = map (\<lambda>p. xs ! ((f * (H * W) + p) * C + g)) [0..<H * W]\<rparr>"
proof -
  have "Suc f \<le> N" using f by simp
  then have "Suc f * prod_list rest \<le> N * prod_list rest" by (rule mult_le_mono1)
  then have le: "(f + 1) * prod_list rest \<le> length xs" using len by simp
  from geo show ?thesis
  proof
    assume a: "rest = [H, W, C] \<and> 2 \<le> C \<and> g = 1"
    then have "(f + 1) * (H * W * C) \<le> length xs" using le by (simp add: mult.assoc)
    from to_gray_channels [OF _ this, of ] a show ?thesis by (simp add: mult.assoc)
  next
    assume a: "rest = [H, W] \<and> C = 1 \<and> g = 0"
    then have "(f + 1) * (H * W) \<le> length xs" using le by simp
    from to_gray_single [OF this] a show ?thesis by simp
  qed
qed

lemma enumerate_map_upt: "enumerate 0 (map F [0..<n]) = map (\<lambda>f. (f, F f)) [0..<n]"
  by (simp add: enumerate_eq_zip zip_map2 zip_same_conv_map)

lemma frame_records_2d:
  assumes g: "to_gray fr = Inr gr" and "shape gr = [H, W]" and "length (data gr) = H * W"
    and "shape masks = [H, W]" and "length (data masks) = H * W"
  shows "frame_records masks cells (f, fr)
         = Inr (map (\<lambda>c. \<lparr>frame = f, cell_id = c,
                  intensity = np_mean (map Fin
                    (map fst (filter (\<lambda>(v, l). l = c) (zip (data gr) (data masks)))))\<rparr>) cells)"
  unfolding frame_records_def using g
  by (simp add: collect_Inr cell_record_2d [OF assms(2-5)])

lemma measure_cells_spec:
  assumes wfF: "wf frames" and wfM: "wf masks" and shM: "shape masks = [H, W]"
    and geo: "(shape frames = [N, H, W, C] \<and> 2 \<le> C \<and> g = 1)
            \<or> (shape frames = [N, H, W] \<and> C = 1 \<and> g = 0)"
  shows "measure_cells frames masks cells
         = Inr (concat (map (\<lambda>f. map (\<lambda>c. \<lparr>frame = f, cell_id = c,
              intensity = np_mean (map Fin (cell_pixels frames masks (H * W) C g f c))\<rparr>) cells)
              [0..<N]))"
proof -
  define rest where "rest = tl (shape frames)"
  have sh: "shape frames = N # rest" using geo by (auto simp: rest_def)
  have geo': "(rest = [H, W, C] \<and> 2 \<le> C \<and> g = 1) \<or> (rest = [H, W] \<and> C = 1 \<and> g = 0)"
    using geo by (auto simp: rest_def)
  have len: "length (data frames) = N * prod_list rest"
    using wfF sh by (simp add: wf_def)
  have lenM: "length (data masks) = H * W" using wfM shM by (simp add: wf_def)
  let ?F = "\<lambda>f. \<lparr>shape = rest,
                 data = take (prod_list rest) (drop (f * prod_list rest) (data frames))\<rparr>"
  let ?R = "\<lambda>f. map (\<lambda>c. \<lparr>frame = f, cell_id = c,
              intensity = np_mean (map Fin (cell_pixels frames masks (H * W) C g f c))\<rparr>) cells"
  have one: "frame_records masks cells (f, ?F f) = Inr (?R f)" if f: "f < N" for f
  proof -
    note gr = gray_frame [OF geo' len f]
    show ?thesis
      by (subst frame_records_2d [OF gr _ _ shM lenM]) (simp_all add: cell_pixels_def)
  qed
  have "collect (frame_records masks cells) (map (\<lambda>f. (f, ?F f)) [0..<N])
        = Inr (map (\<lambda>x. ?R (fst x)) (map (\<lambda>f. (f, ?F f)) [0..<N]))"
    by (rule collect_Inr) (auto simp: one)
  moreover have "enumerate 0 (map ?F [0..<N]) = map (\<lambda>f. (f, ?F f)) [0..<N]"
    by (rule enumerate_map_upt)
  ultimately show ?thesis
    by (simp add: measure_cells_def np_iter_frames [OF sh] o_def)
qed



lemma measure_cells_canonical:
  assumes wfF: "wf frames" and wfM: "wf masks" and shM: "shape masks = [H, W]"
    and geo: "(shape frames = [N, H, W, C] \<and> 2 \<le> C \<and> g = 1)
            \<or> (shape frames = [N, H, W] \<and> C = 1 \<and> g = 0)"
    and can: "set (data masks) - {0} = {1..K}"
  shows "measure_cells frames masks [1..K]
         = Inr (concat (map (\<lambda>f. map (\<lambda>c. \<lparr>frame = f, cell_id = c,
              intensity = Fin (sum_list (cell_pixels frames masks (H * W) C g f c)
                               / real (length (cell_pixels frames masks (H * W) C g f c)))\<rparr>)
              [1..K]) [0..<N]))"
proof -
  have lenM: "length (data masks) = H * W" using wfM shM by (simp add: wf_def)
  have mean: "np_mean (map Fin (cell_pixels frames masks (H * W) C g f c))
        = Fin (sum_list (cell_pixels frames masks (H * W) C g f c)
                / real (length (cell_pixels frames masks (H * W) C g f c)))"
    if c: "c \<in> set [1..K]" for f c
  proof -
    from c have "c \<in> {1..K}" by simp
    then have "c \<in> set (data masks) - {0}" by (simp only: can)
    then have "c \<in> set (data masks)" by (rule DiffD1)
    then have "cell_pixels frames masks (H * W) C g f c \<noteq> []"
      unfolding cell_pixels_def by (rule member_nonempty) (simp add: lenM)
    then show ?thesis by (simp add: np_mean_Fin)
  qed
  have "map (\<lambda>c. \<lparr>frame = f, cell_id = c,
              intensity = np_mean (map Fin (cell_pixels frames masks (H * W) C g f c))\<rparr>) [1..K]
      = map (\<lambda>c. \<lparr>frame = f, cell_id = c,
              intensity = Fin (sum_list (cell_pixels frames masks (H * W) C g f c)
                               / real (length (cell_pixels frames masks (H * W) C g f c)))\<rparr>)
              [1..K]" for f
    by (rule map_cong [OF refl]) (simp only: mean)
  then show ?thesis
    by (simp only: measure_cells_spec [OF wfF wfM shM geo])
qed

text \<open>
  Claim C1, as amended. For well-formed frames of shape (N, H, W, C) with at least two
  channels (three in particular), or of shape (N, H, W) with no channel axis, and a label
  image of shape (H, W) whose nonzero values are exactly 1..K, extraction returns exactly
  the records (f, c, mean) for f = 0..N-1 and, within each frame, c = 1..K in ascending
  order, where the mean is the arithmetic mean of the index-1 channel (of the pixel value
  itself, for frames with no channel axis) over the pixels labelled c.
\<close>

theorem extract_records_spec:
  assumes "wf frames" and "wf masks" and "shape masks = [H, W]"
    and "(shape frames = [N, H, W, C] \<and> 2 \<le> C \<and> g = 1)
       \<or> (shape frames = [N, H, W] \<and> C = 1 \<and> g = 0)"
    and "set (data masks) - {0} = {1..K}"
  shows "extract_records pol frames masks
         = Inr (concat (map (\<lambda>f. map (\<lambda>c. \<lparr>frame = f, cell_id = c,
              intensity = Fin (sum_list (cell_pixels frames masks (H * W) C g f c)
                               / real (length (cell_pixels frames masks (H * W) C g f c)))\<rparr>)
              [1..K]) [0..<N]))"
proof -
  have "extract_records pol frames masks = measure_cells frames masks [1..K]"
    by (simp add: extract_records_def sequential_relabel_canonical [OF assms(5)])
  then show ?thesis
    by (simp only: measure_cells_canonical [OF assms])
qed

lemma upt_0_2: "[0..<2] = [0, 1]"
  by (simp add: numeral_2_eq_2)

theorem extract_records_spec_witness:
  "extract_records Raise \<lparr>shape = [1, 1, 2, 3], data = [1, 2, 3, 4, 5, 6]\<rparr>
                   \<lparr>shape = [1, 2], data = [1, 1], dtype = UInt16\<rparr>
   = Inr [\<lparr>frame = 0, cell_id = 1, intensity = Fin (7 / 2)\<rparr>]"
proof -
  let ?fr = "\<lparr>shape = [1, 1, 2, 3], data = [1, 2, 3, 4, 5, 6 :: real]\<rparr>"
  let ?ms = "\<lparr>shape = [1, 2], data = [1, 1 :: int], dtype = UInt16\<rparr>"
  have 1: "wf ?fr" and 2: "wf ?ms" by (simp_all add: wf_def)
  have 3: "shape ?ms = [1, 2]" by simp
  have 4: "(shape ?fr = [1, 1, 2, 3] \<and> (2::nat) \<le> 3 \<and> (1::nat) = 1)
       \<or> (shape ?fr = [1, 1, 2] \<and> (3::nat) = 1 \<and> (1::nat) = 0)" by simp
  have 5: "set (data ?ms) - {0} = {1..1}" by auto
  show ?thesis
    unfolding extract_records_spec [OF 1 2 3 4 5]
    by (simp add: cell_pixels_def upt_0_2)
qed

text \<open>Single-channel frames that do have their channel axis, shape (N, H, W, 1): line 828
  indexes channel 1 of a frame of shape (H, W, 1).\<close>

theorem extract_records_single_channel_axis_counterexample:
  "extract_records Raise \<lparr>shape = [1, 1, 2, 1], data = [3, 4]\<rparr>
                   \<lparr>shape = [1, 2], data = [1, 1], dtype = UInt16\<rparr>
   = Inl IndexError"
  by (simp add: extract_records_def sequential_relabel_def np_unique_def nonzero_def
      arange1_def measure_cells_def np_iter_def chunks_def enumerate_eq_zip frame_records_def
      to_gray_def select_last_def Let_def)









section \<open>Baselines and normalized intensity\<close>

lemma insort_key_Fin:
  "insort_key fkey (Fin x) (map Fin ys) = map Fin (insort x ys)"
  by (induction ys) simp_all

lemma sort_key_Fin: "sort_key fkey (map Fin vs) = map Fin (sort vs)"
  by (induction vs) (simp_all add: insort_key_Fin)

lemma nsmallest_Fin: "nsmallest k (map Fin vs) = map Fin (take k (sort vs))"
  by (simp add: nsmallest_def sort_key_Fin take_map)

lemma pd_mean_Fin:
  "pd_mean (map Fin ws) = (if ws = [] then NaN else Fin (sum_list ws / real (length ws)))"
proof -
  have "filter (\<lambda>x. x \<noteq> NaN) (map Fin ws) = map Fin ws"
    by (induction ws) simp_all
  then show ?thesis by (simp add: pd_mean_def np_mean_Fin)
qed

lemma find_filter_hd:
  "find P xs = Some r \<Longrightarrow> filter P xs \<noteq> [] \<and> hd (filter P xs) = r"
  by (induction xs) (auto split: if_splits)

lemma find_filter_none: "find P xs = None \<Longrightarrow> filter P xs = []"
  by (induction xs) (auto split: if_splits)

lemma baseline_of_first_frame:
  assumes "find (\<lambda>r. cell_id r = c \<and> frame r = 0) df = Some r"
  shows "baseline_of df c = intensity r"
  using find_filter_hd [OF assms] by (simp add: baseline_of_def Let_def)

lemma baseline_of_fallback:
  assumes none: "find (\<lambda>r. cell_id r = c \<and> frame r = 0) df = None"
    and fin: "map intensity (filter (\<lambda>r. cell_id r = c) df) = map Fin vs"
    and ne: "vs \<noteq> []"
  shows "baseline_of df c
         = Fin (sum_list (take (min 10 (length vs)) (sort vs)) / real (min 10 (length vs)))"
proof -
  have len: "length (filter (\<lambda>r. cell_id r = c) df) = length vs"
    using arg_cong [OF fin, of length] by simp
  have ne': "take (min 10 (length vs)) (sort vs) \<noteq> []" using ne by (cases vs) simp_all
  have l: "length (take (min 10 (length vs)) (sort vs)) = min 10 (length vs)" by simp
  have "baseline_of df c = pd_mean (nsmallest (min 10 (length vs)) (map Fin vs))"
    using find_filter_none [OF none] by (simp add: baseline_of_def Let_def len fin)
  also have "\<dots> = Fin (sum_list (take (min 10 (length vs)) (sort vs)) / real (min 10 (length vs)))"
    using ne' by (simp only: nsmallest_Fin pd_mean_Fin l if_False)
  finally show ?thesis .
qed

lemma map_of_baselines:
  "c \<in> set cells \<Longrightarrow> map_of (baselines df cells) c = Some (baseline_of df c)"
  by (induction cells) (auto simp: baselines_def)

lemma normalize_table_rows:
  assumes "df \<noteq> []" and "\<forall>r \<in> set df. cell_id r \<in> set cells"
  shows "normalize_table df cells
         = Inr (map (\<lambda>r. \<lparr>frame = frame r, cell_id = cell_id r, intensity = intensity r,
                    normalized_intensity = fdiv (intensity r) (baseline_of df (cell_id r))\<rparr>) df)"
proof -
  have "collect (normalize_row (baselines df cells)) df
        = Inr (map (\<lambda>r. \<lparr>frame = frame r, cell_id = cell_id r, intensity = intensity r,
                    normalized_intensity = fdiv (intensity r) (baseline_of df (cell_id r))\<rparr>) df)"
    using assms(2) by (intro collect_Inr) (simp add: normalize_row_def map_of_baselines)
  then show ?thesis using assms(1) by (simp add: normalize_table_def)
qed


text \<open>
  Claim C2. For a cell of \<open>unique_cells\<close> and any record table: when the table has a
  frame-0 record of the cell, the baseline is that record's intensity; when it has none,
  the baseline is the mean of the \<open>min(10, n)\<close> smallest of the cell's \<open>n\<close> (finite)
  intensities; and every row of the result carries its record's intensity divided, in
  float64 arithmetic, by the baseline of its cell.
\<close>

theorem baseline_normalization_spec:
  assumes c: "c \<in> set cells"
  shows "(\<forall>r. find (\<lambda>r. cell_id r = c \<and> frame r = 0) df = Some r \<longrightarrow>
            map_of (baselines df cells) c = Some (intensity r))
    \<and> (\<forall>vs. find (\<lambda>r. cell_id r = c \<and> frame r = 0) df = None
            \<and> map intensity (filter (\<lambda>r. cell_id r = c) df) = map Fin vs \<and> vs \<noteq> [] \<longrightarrow>
            map_of (baselines df cells) c
            = Some (Fin (sum_list (take (min 10 (length vs)) (sort vs))
                         / real (min 10 (length vs)))))
    \<and> (df \<noteq> [] \<and> (\<forall>r \<in> set df. cell_id r \<in> set cells) \<longrightarrow>
         (\<exists>rows. normalize_table df cells = Inr rows \<and> length rows = length df
            \<and> (\<forall>i < length df. \<exists>b. map_of (baselines df cells) (cell_id (df ! i)) = Some b
                  \<and> rows ! i = \<lparr>frame = frame (df ! i), cell_id = cell_id (df ! i),
                                 intensity = intensity (df ! i),
                                 normalized_intensity = fdiv (intensity (df ! i)) b\<rparr>)))"
proof (intro conjI allI impI)
  fix r assume "find (\<lambda>r. cell_id r = c \<and> frame r = 0) df = Some r"
  then show "map_of (baselines df cells) c = Some (intensity r)"
    by (simp add: map_of_baselines [OF c] baseline_of_first_frame)
next
  fix vs
  assume a: "find (\<lambda>r. cell_id r = c \<and> frame r = 0) df = None
            \<and> map intensity (filter (\<lambda>r. cell_id r = c) df) = map Fin vs \<and> vs \<noteq> []"
  have "baseline_of df c
        = Fin (sum_list (take (min 10 (length vs)) (sort vs)) / real (min 10 (length vs)))"
    using a by (intro baseline_of_fallback) simp_all
  then show "map_of (baselines df cells) c
            = Some (Fin (sum_list (take (min 10 (length vs)) (sort vs))
                         / real (min 10 (length vs))))"
    by (simp only: map_of_baselines [OF c])
next
  assume a: "df \<noteq> [] \<and> (\<forall>r \<in> set df. cell_id r \<in> set cells)"
  then have ne: "df \<noteq> []" and all: "\<forall>r \<in> set df. cell_id r \<in> set cells" by simp_all
  let ?rows = "map (\<lambda>r. \<lparr>frame = frame r, cell_id = cell_id r, intensity = intensity r,
                    normalized_intensity = fdiv (intensity r) (baseline_of df (cell_id r))\<rparr>) df"
  have "normalize_table df cells = Inr ?rows" by (rule normalize_table_rows [OF ne all])
  moreover have "length ?rows = length df" by simp
  moreover have "\<forall>i < length df. \<exists>b. map_of (baselines df cells) (cell_id (df ! i)) = Some b
                  \<and> ?rows ! i = \<lparr>frame = frame (df ! i), cell_id = cell_id (df ! i),
                                 intensity = intensity (df ! i),
                                 normalized_intensity = fdiv (intensity (df ! i)) b\<rparr>"
    using all by (simp add: map_of_baselines)
  ultimately show "\<exists>rows. normalize_table df cells = Inr rows \<and> length rows = length df
            \<and> (\<forall>i < length df. \<exists>b. map_of (baselines df cells) (cell_id (df ! i)) = Some b
                  \<and> rows ! i = \<lparr>frame = frame (df ! i), cell_id = cell_id (df ! i),
                                 intensity = intensity (df ! i),
                                 normalized_intensity = fdiv (intensity (df ! i)) b\<rparr>)"
    by blast
qed

theorem baseline_normalization_spec_witness:
  "map_of (baselines [\<lparr>frame = 0, cell_id = 5, intensity = Fin 4\<rparr>,
                      \<lparr>frame = 1, cell_id = 5, intensity = Fin 2\<rparr>] [5]) 5 = Some (Fin 4)
   \<and> map_of (baselines [\<lparr>frame = 3, cell_id = 5, intensity = Fin 4\<rparr>,
                        \<lparr>frame = 4, cell_id = 5, intensity = Fin 2\<rparr>] [5]) 5 = Some (Fin 3)
   \<and> (\<exists>rows. normalize_table [\<lparr>frame = 3, cell_id = 5, intensity = Fin 4\<rparr>,
                               \<lparr>frame = 4, cell_id = 5, intensity = Fin 2\<rparr>] [5] = Inr rows
               \<and> length rows = 2)"
proof -
  let ?df0 = "[\<lparr>frame = 0, cell_id = 5, intensity = Fin 4\<rparr>,
               \<lparr>frame = 1, cell_id = 5, intensity = Fin 2\<rparr>]"
  let ?df3 = "[\<lparr>frame = 3, cell_id = 5, intensity = Fin 4\<rparr>,
               \<lparr>frame = 4, cell_id = 5, intensity = Fin 2\<rparr>]"
  have c: "(5::int) \<in> set [5]" by simp
  note h0 = baseline_normalization_spec [OF c, of ?df0]
  note h3 = baseline_normalization_spec [OF c, of ?df3]
  have "find (\<lambda>r. cell_id r = 5 \<and> frame r = 0) ?df0
        = Some \<lparr>frame = 0, cell_id = 5, intensity = Fin 4\<rparr>" by simp
  with h0 [THEN conjunct1, rule_format, of "\<lparr>frame = 0, cell_id = 5, intensity = Fin 4\<rparr>"]
  have w1: "map_of (baselines ?df0 [5]) 5 = Some (Fin 4)" by simp
  have "find (\<lambda>r. cell_id r = 5 \<and> frame r = 0) ?df3 = None
        \<and> map intensity (filter (\<lambda>r. cell_id r = 5) ?df3) = map Fin [4, 2] \<and> [4, 2 :: real] \<noteq> []"
    by simp
  from h3 [THEN conjunct2, THEN conjunct1, rule_format, OF this]
  have w2: "map_of (baselines ?df3 [5]) 5 = Some (Fin 3)" by simp
  have "?df3 \<noteq> [] \<and> (\<forall>r \<in> set ?df3. cell_id r \<in> set [5])" by simp
  from h3 [THEN conjunct2, THEN conjunct2, rule_format, OF this]
  have w3: "\<exists>rows. normalize_table ?df3 [5] = Inr rows \<and> length rows = 2" by auto
  from w1 w2 w3 show ?thesis by blast
qed


lemma calculate_df_zero_baseline:
  assumes "np_mean (py_take k (map Fin vs)) = Fin 0"
  shows "calculate_df (map Fin vs) k
         = map (\<lambda>v. if 0 < v then PInf else if v < 0 then NInf else NaN) vs"
  using assms by (simp add: calculate_df_def fsub_def Let_def)

text \<open>
  Claim C4, as amended. A baseline of exactly 0 raises nothing. \<open>normalized_intensity\<close>
  is computed for every row: the quotient \<open>intensity / baseline\<close> for a nonzero finite
  baseline, and for a zero baseline +inf, -inf or NaN as the intensity is positive,
  negative or zero. \<open>calculate_df\<close> divides by a zero baseline in the same way.
\<close>

theorem zero_baseline_no_error:
  assumes ne: "df \<noteq> []" and all: "\<forall>r \<in> set df. cell_id r \<in> set cells"
  shows "(\<exists>rows. normalize_table df cells = Inr rows \<and> length rows = length df
          \<and> (\<forall>i x b. i < length df \<and> intensity (df ! i) = Fin x
                \<and> map_of (baselines df cells) (cell_id (df ! i)) = Some (Fin b) \<longrightarrow>
                normalized_intensity (rows ! i)
                = (if b \<noteq> 0 then Fin (x / b)
                   else if 0 < x then PInf else if x < 0 then NInf else NaN)))
       \<and> (\<forall>k vs. np_mean (py_take k (map Fin vs)) = Fin 0 \<longrightarrow>
            calculate_df (map Fin vs) k
            = map (\<lambda>v. if 0 < v then PInf else if v < 0 then NInf else NaN) vs)"
proof
  let ?rows = "map (\<lambda>r. \<lparr>frame = frame r, cell_id = cell_id r, intensity = intensity r,
                    normalized_intensity = fdiv (intensity r) (baseline_of df (cell_id r))\<rparr>) df"
  have "normalize_table df cells = Inr ?rows" by (rule normalize_table_rows [OF ne all])
  moreover have "length ?rows = length df" by simp
  moreover have "normalized_intensity (?rows ! i)
                = (if b \<noteq> 0 then Fin (x / b)
                   else if 0 < x then PInf else if x < 0 then NInf else NaN)"
    if "i < length df \<and> intensity (df ! i) = Fin x
                \<and> map_of (baselines df cells) (cell_id (df ! i)) = Some (Fin b)" for i x b
  proof -
    from that have i: "i < length df" and x: "intensity (df ! i) = Fin x"
      and b: "map_of (baselines df cells) (cell_id (df ! i)) = Some (Fin b)" by simp_all
    from i all have "cell_id (df ! i) \<in> set cells" by simp
    from map_of_baselines [OF this, of df] b
    have "baseline_of df (cell_id (df ! i)) = Fin b" by simp
    with i x show ?thesis by simp
  qed
  ultimately show "\<exists>rows. normalize_table df cells = Inr rows \<and> length rows = length df
          \<and> (\<forall>i x b. i < length df \<and> intensity (df ! i) = Fin x
                \<and> map_of (baselines df cells) (cell_id (df ! i)) = Some (Fin b) \<longrightarrow>
                normalized_intensity (rows ! i)
                = (if b \<noteq> 0 then Fin (x / b)
                   else if 0 < x then PInf else if x < 0 then NInf else NaN))"
    by blast
next
  show "\<forall>k vs. np_mean (py_take k (map Fin vs)) = Fin 0 \<longrightarrow>
            calculate_df (map Fin vs) k
            = map (\<lambda>v. if 0 < v then PInf else if v < 0 then NInf else NaN) vs"
    using calculate_df_zero_baseline by blast
qed

theorem zero_baseline_no_error_witness:
  "(\<exists>rows. normalize_table [\<lparr>frame = 0, cell_id = 1, intensity = Fin 0\<rparr>,
                             \<lparr>frame = 1, cell_id = 1, intensity = Fin 6\<rparr>] [1] = Inr rows
      \<and> length rows = 2 \<and> normalized_intensity (rows ! 1) = PInf)
   \<and> calculate_df (map Fin [0, 3]) 1 = [NaN, PInf]"
proof -
  let ?df = "[\<lparr>frame = 0, cell_id = 1, intensity = Fin 0\<rparr>,
              \<lparr>frame = 1, cell_id = 1, intensity = Fin 6\<rparr>]"
  have ne: "?df \<noteq> []" by simp
  have all: "\<forall>r \<in> set ?df. cell_id r \<in> set [1]" by simp
  note h = zero_baseline_no_error [OF ne all]
  from h [THEN conjunct1] obtain rows where
    r: "normalize_table ?df [1] = Inr rows" "length rows = length ?df"
    and n: "\<forall>i x b. i < length ?df \<and> intensity (?df ! i) = Fin x
                \<and> map_of (baselines ?df [1]) (cell_id (?df ! i)) = Some (Fin b) \<longrightarrow>
                normalized_intensity (rows ! i)
                = (if b \<noteq> 0 then Fin (x / b)
                   else if 0 < x then PInf else if x < 0 then NInf else NaN)"
    by blast
  have "1 < length ?df \<and> intensity (?df ! 1) = Fin 6
        \<and> map_of (baselines ?df [1]) (cell_id (?df ! 1)) = Some (Fin 0)"
    by (simp add: baselines_def baseline_of_def)
  from n [rule_format, OF this] have "normalized_intensity (rows ! 1) = PInf" by simp
  with r have 1: "\<exists>rows. normalize_table ?df [1] = Inr rows
      \<and> length rows = 2 \<and> normalized_intensity (rows ! 1) = PInf" by simp
  have "np_mean (py_take 1 (map Fin [0, 3])) = Fin 0"
    by (simp add: py_take_def np_mean_def fsum_def)
  from h [THEN conjunct2, rule_format, OF this]
  have "calculate_df (map Fin [0, 3]) 1 = [NaN, PInf]" by simp
  with 1 show ?thesis by blast
qed

theorem analyze_zero_baseline_counterexample:
  "analyze_calcium_intensity Raise \<lparr>shape = [1, 1, 1], data = [0]\<rparr>
       \<lparr>shape = [1, 1], data = [1], dtype = UInt16\<rparr>
     = Inr [\<lparr>frame = 0, cell_id = 1, intensity = Fin 0, normalized_intensity = NaN\<rparr>]
   \<and> analyze_calcium_intensity Wrap \<lparr>shape = [1, 1, 1], data = [0]\<rparr>
       \<lparr>shape = [1, 1], data = [1], dtype = UInt16\<rparr>
     = Inr [\<lparr>frame = 0, cell_id = 1, intensity = Fin 0, normalized_intensity = NaN\<rparr>]"
  by (simp add: analyze_calcium_intensity_def sequential_relabel_def np_unique_def nonzero_def
      arange1_def measure_cells_def np_iter_def chunks_def enumerate_eq_zip frame_records_def
      to_gray_def cell_record_def bool_index_def np_mean_def fsum_def normalize_table_def
      baselines_def baseline_of_def normalize_row_def Let_def)

section \<open>The caller's arrays\<close>

lemma assign_where_st_take:
  "n \<le> r \<Longrightarrow> take n (snd (assign_where_st pol masks r orig new s)) = take n s"
  by (simp add: assign_where_st_def split: obj.splits sum.splits)

lemma relabel_loop_st_take:
  "n \<le> r \<Longrightarrow> take n (snd (relabel_loop_st pol masks r items s)) = take n s"
proof (induction items arbitrary: s)
  case Nil
  then show ?case by simp
next
  case (Cons it items)
  obtain orig new where it: "it = (orig, new)" by (cases it)
  obtain e s' where a: "assign_where_st pol masks r orig new s = (e, s')"
    by (cases "assign_where_st pol masks r orig new s")
  have t: "take n s' = take n s"
    using assign_where_st_take [OF Cons.prems, of pol masks orig new s] a by simp
  show ?case
  proof (cases e)
    case None
    with a it t Cons.IH [OF Cons.prems, of s'] show ?thesis by simp
  next
    case (Some err)
    with a it t show ?thesis by simp
  qed
qed

lemma relabel_loop_st_eq:
  "masks < r \<Longrightarrow> r < length s \<Longrightarrow> s ! masks = IntArr m \<Longrightarrow> s ! r = IntArr rm \<Longrightarrow>
   (case relabel_loop pol (dtype rm) (data m) items (data rm) of
      Inl e \<Rightarrow> fst (relabel_loop_st pol masks r items s) = Some e
    | Inr vs \<Rightarrow> relabel_loop_st pol masks r items s = (None, s[r := IntArr (rm\<lparr>data := vs\<rparr>)]))"
proof (induction items arbitrary: s rm)
  case Nil
  have "s[r := s ! r] = s" by simp
  then show ?case by (simp add: Nil.prems(4))
next
  case (Cons it items)
  obtain orig new where it: "it = (orig, new)" by (cases it)
  show ?case
  proof (cases "assign_where pol (dtype rm) (data m) orig new (data rm)")
    case (Inl e)
    then show ?thesis using Cons.prems by (simp add: it assign_where_st_def)
  next
    case (Inr vs)
    let ?rm' = "rm\<lparr>data := vs\<rparr>"
    let ?s' = "s[r := IntArr ?rm']"
    have st: "assign_where_st pol masks r orig new s = (None, ?s')"
      using Cons.prems Inr by (simp add: assign_where_st_def)
    have ih: "case relabel_loop pol (dtype ?rm') (data m) items (data ?rm') of
        Inl e \<Rightarrow> fst (relabel_loop_st pol masks r items ?s') = Some e
      | Inr ws \<Rightarrow> relabel_loop_st pol masks r items ?s'
                  = (None, ?s'[r := IntArr (?rm'\<lparr>data := ws\<rparr>)])"
      using Cons.prems by (intro Cons.IH) simp_all
    show ?thesis
      using ih by (simp add: it st Inr split: sum.splits)
  qed
qed

lemma analyze_st_store:
  "take (length s) (snd (analyze_calcium_intensity_st pol s frames masks)) = s"
proof -
  have "take (length s) (snd (relabel_loop_st pol masks (length s) items (s @ [x]))) = s"
    for items x
    using relabel_loop_st_take [of "length s" "length s" pol masks items "s @ [x]"] by simp
  then have "take (length s) s2 = s"
    if "relabel_loop_st pol masks (length s) items (s @ [x]) = (e, s2)" for items x e s2
    using that by (metis snd_conv)
  then show ?thesis
    by (auto simp: analyze_calcium_intensity_st_def alloc_def Let_def
        split: obj.splits prod.splits option.splits)
qed

lemma analyze_calcium_intensity_alt:
  "analyze_calcium_intensity pol f m
   = (case sequential_relabel pol m of
        Inl e \<Rightarrow> Inl e
      | Inr (m', cells) \<Rightarrow> measure_and_normalize f m' cells)"
  by (simp add: analyze_calcium_intensity_def measure_and_normalize_def
      split: sum.splits prod.splits)

lemma analyze_st_result:
  assumes fr: "frames < length s" and ms: "masks < length s"
    and f: "s ! frames = FloatArr f" and m: "s ! masks = IntArr m"
  shows "fst (analyze_calcium_intensity_st pol s frames masks) = analyze_calcium_intensity pol f m"
proof (cases "nonzero (np_unique (data m)) = arange1 (length (nonzero (np_unique (data m))))")
  case True
  then show ?thesis
    using f m
    by (simp add: analyze_calcium_intensity_st_def analyze_calcium_intensity_alt
        sequential_relabel_def Let_def)
next
  case False
  let ?ids = "nonzero (np_unique (data m))"
  let ?items = "zip ?ids (arange1 (length ?ids))"
  let ?s1 = "s @ [IntArr (zeros_like m)]"
  have loop: "case relabel_loop pol (dtype (zeros_like m)) (data m) ?items (data (zeros_like m)) of
        Inl e \<Rightarrow> fst (relabel_loop_st pol masks (length s) ?items ?s1) = Some e
      | Inr vs \<Rightarrow> relabel_loop_st pol masks (length s) ?items ?s1
                  = (None, ?s1[length s := IntArr ((zeros_like m)\<lparr>data := vs\<rparr>)])"
    using ms m by (intro relabel_loop_st_eq) (simp_all add: nth_append)
  have dt: "dtype (zeros_like m) = dtype m" by (simp add: zeros_like_def)
  show ?thesis
  proof (cases "relabel_loop pol (dtype m) (data m) ?items (data (zeros_like m))")
    case (Inl e)
    with loop dt have "fst (relabel_loop_st pol masks (length s) ?items ?s1) = Some e" by simp
    then obtain s2 where "relabel_loop_st pol masks (length s) ?items ?s1 = (Some e, s2)"
      by (cases "relabel_loop_st pol masks (length s) ?items ?s1") simp
    then show ?thesis
      using False f m Inl
      by (simp add: analyze_calcium_intensity_st_def analyze_calcium_intensity_alt
          sequential_relabel_def Let_def alloc_def)
  next
    case (Inr vs)
    with loop dt have "relabel_loop_st pol masks (length s) ?items ?s1
        = (None, s @ [IntArr (m\<lparr>data := vs\<rparr>)])"
      by (simp add: zeros_like_def)
    then show ?thesis
      using False f m fr ms Inr
      by (simp add: analyze_calcium_intensity_st_def analyze_calcium_intensity_alt
          sequential_relabel_def Let_def alloc_def nth_append)
  qed
qed

text \<open>
  Claim C10. \<open>analyze_calcium_intensity\<close> leaves every object that existed before the
  call as it was, the caller's \<open>frames\<close> and \<open>masks\<close> arrays in particular: the
  relabelling writes into the array that \<open>np.zeros_like\<close> has just created, and the
  assignment \<open>masks = relabeled_mask\<close> only rebinds the local name. On a store whose two
  references hold a float array and an integer array the function returns what the
  store-free model \<open>analyze_calcium_intensity\<close> returns.
\<close>

theorem analyze_preserves_inputs:
  assumes "frames < length s" and "masks < length s"
  shows "snd (analyze_calcium_intensity_st pol s frames masks) ! frames = s ! frames
       \<and> snd (analyze_calcium_intensity_st pol s frames masks) ! masks = s ! masks
       \<and> take (length s) (snd (analyze_calcium_intensity_st pol s frames masks)) = s
       \<and> (\<forall>f m. s ! frames = FloatArr f \<and> s ! masks = IntArr m \<longrightarrow>
             fst (analyze_calcium_intensity_st pol s frames masks)
             = analyze_calcium_intensity pol f m)"
proof -
  let ?s' = "snd (analyze_calcium_intensity_st pol s frames masks)"
  have t: "take (length s) ?s' = s" by (rule analyze_st_store)
  have "take (length s) ?s' ! i = ?s' ! i" if "i < length s" for i
    using that by simp
  then have "?s' ! i = s ! i" if "i < length s" for i
    using that t by simp
  with assms t analyze_st_result [OF assms] show ?thesis by blast
qed

theorem analyze_preserves_inputs_witness:
  "analyze_calcium_intensity_st Raise
     [FloatArr \<lparr>shape = [1, 1, 2], data = [3, 4]\<rparr>,
      IntArr \<lparr>shape = [1, 2], data = [5, 7], dtype = UInt16\<rparr>] 0 1
   = (Inr [\<lparr>frame = 0, cell_id = 1, intensity = Fin 3, normalized_intensity = Fin 1\<rparr>,
           \<lparr>frame = 0, cell_id = 2, intensity = Fin 4, normalized_intensity = Fin 1\<rparr>],
      [FloatArr \<lparr>shape = [1, 1, 2], data = [3, 4]\<rparr>,
       IntArr \<lparr>shape = [1, 2], data = [5, 7], dtype = UInt16\<rparr>,
       IntArr \<lparr>shape = [1, 2], data = [1, 2], dtype = UInt16\<rparr>])"
proof -
  let ?s = "[FloatArr \<lparr>shape = [1, 1, 2], data = [3, 4]\<rparr>,
             IntArr \<lparr>shape = [1, 2], data = [5, 7], dtype = UInt16\<rparr>]"
  have 0: "(0::nat) < length ?s" and 1: "(1::nat) < length ?s" by simp_all
  note h = analyze_preserves_inputs [OF 0 1, of Raise]
  have e: "analyze_calcium_intensity_st Raise ?s 0 1
   = (Inr [\<lparr>frame = 0, cell_id = 1, intensity = Fin 3, normalized_intensity = Fin 1\<rparr>,
           \<lparr>frame = 0, cell_id = 2, intensity = Fin 4, normalized_intensity = Fin 1\<rparr>],
      ?s @ [IntArr \<lparr>shape = [1, 2], data = [1, 2], dtype = UInt16\<rparr>])"
    by (simp add: analyze_calcium_intensity_st_def np_unique_def nonzero_def arange1_def
        alloc_def zeros_like_def assign_where_st_def assign_where_def store_int_def fits_def
        dtype_min_def dtype_max_def
        measure_and_normalize_def measure_cells_def np_iter_def chunks_def enumerate_eq_zip
        frame_records_def to_gray_def cell_record_def bool_index_def np_mean_def fsum_def
        normalize_table_def baselines_def baseline_of_def normalize_row_def Let_def upt_0_2
        upto_1_2)
  from h have "take (length ?s) (snd (analyze_calcium_intensity_st Raise ?s 0 1)) = ?s" by blast
  with e show ?thesis by simp
qed

end
